theory Spec2Isabelle
  imports Main "HOL-Library.Word"
begin

section \<open>EtherLiftFundraising: a confidential single-campaign fundraiser\<close>

text \<open>
  The development embeds the Solidity contract \<^verbatim>\<open>EtherLiftFundraising\<close>
  (contracts/EtherLiftFundraising.sol). Storage is a record, every \<^verbatim>\<open>require\<close> and every
  reverting collaborator call is a branch that returns an error, and the two external
  collaborators (the FHE coprocessor behind \<^verbatim>\<open>FHE.*\<close> and the confidential token
  \<^verbatim>\<open>cEth\<close>) are modelled at the interface the contract consumes.
\<close>

subsection \<open>Value types\<close>

type_synonym address = "160 word"
type_synonym uint64 = "64 word"

text \<open>
  \<^verbatim>\<open>block.timestamp\<close> and \<^verbatim>\<open>lastContributionAt\<close> are \<^verbatim>\<open>uint256\<close>. The contract only
  compares and stores them, so they are natural numbers here; a \<^verbatim>\<open>uint64\<close> operand of a
  comparison is widened with \<^const>\<open>unat\<close>, as Solidity widens it to \<^verbatim>\<open>uint256\<close>.
\<close>

type_synonym timestamp = nat

text \<open>\<^verbatim>\<open>externalEuint64\<close> and the input proof travel to the token untouched.\<close>

type_synonym externalEuint64 = nat
type_synonym proof_bytes = "8 word list"

text \<open>
  Modelled from the spec: a ciphertext handle (\<^verbatim>\<open>euint64\<close>, a wrapped \<^verbatim>\<open>bytes32\<close>) is an
  opaque reference to an encrypted 64-bit value. The service derives the handle of a
  ciphertext from the operation that produces it and from that operation's operands, so
  a handle is written here as that derivation: the handle of the ciphertext of a given
  plaintext, of the sum of two ciphertexts, or of the amount the token moved on a given
  transfer request. \<open>Null_handle\<close> is \<^verbatim>\<open>bytes32(0)\<close>, the value of a storage slot that was
  never written; it is the \<open>0\<close> of the type.
\<close>

datatype euint64 =
    Null_handle
  | Trivial_handle uint64
  | Add_handle euint64 euint64
  | Transfer_handle address address externalEuint64 proof_bytes uint64

instantiation euint64 :: zero
begin

definition zero_euint64 :: euint64 where
  "zero_euint64 = Null_handle"

instance ..

end

text \<open>The plaintext a handle stands for, by its derivation.\<close>

fun denotes :: "euint64 \<Rightarrow> uint64" where
  "denotes Null_handle = 0"
| "denotes (Trivial_handle v) = v"
| "denotes (Add_handle a b) = denotes a + denotes b"
| "denotes (Transfer_handle from to encryptedAmount inputProof amount) = amount"

subsection \<open>Revert reasons\<close>

text \<open>
  One constructor per reason string of the contract, in the words of the source, and one
  for each collaborator whose failure the contract lets through.
\<close>

datatype error =
    Only_fundraiser              \<comment> \<open>"Only fundraiser"\<close>
  | Token_required               \<comment> \<open>"Token required"\<close>
  | Campaign_closed              \<comment> \<open>"Campaign closed"\<close>
  | Past_end_time                \<comment> \<open>"Past end time"\<close>
  | Operator_missing             \<comment> \<open>"Operator missing"\<close>
  | Already_closed               \<comment> \<open>"Already closed"\<close>
  | Name_required                \<comment> \<open>"Name required"\<close>
  | Target_required              \<comment> \<open>"Target required"\<close>
  | End_time_must_be_in_future   \<comment> \<open>"End time must be in future"\<close>
  | Ledger_reverted              \<comment> \<open>a revert inside the token, propagated\<close>
  | Fhe_reverted                 \<comment> \<open>a revert inside the FHE library, propagated\<close>
  | Access_denied                \<comment> \<open>decryption asked for without a grant\<close>

subsection \<open>The FHE coprocessor\<close>

text \<open>
  Modelled from the spec: the EncryptedValue service (the library \<^verbatim>\<open>@fhevm/solidity\<close> is
  not part of the repository). It keeps the plaintext behind every ciphertext handle it
  has produced and, per handle, the principals that were granted access. The service is
  shared: the token and other contracts use it too, and a handle the contract obtains
  may have been produced before and may carry grants the contract never gave.
\<close>

record fhe =
  ciphertexts :: "euint64 \<Rightarrow> uint64 option"
  acl :: "(euint64 \<times> address) set"

text \<open>
  Modelled from the spec: producing a ciphertext. The handle \<open>h\<close> derived for the
  operation is bound to the plaintext; the grants on \<open>h\<close> are left as they are.
\<close>

definition fhe_mint :: "fhe \<Rightarrow> euint64 \<Rightarrow> uint64 \<Rightarrow> euint64 \<times> fhe" where
  "fhe_mint f h v = (h, f\<lparr>ciphertexts := (ciphertexts f)(h \<mapsto> v)\<rparr>)"

text \<open>Modelled from the spec: \<^verbatim>\<open>FHE.isInitialized\<close>, true of every handle but \<^verbatim>\<open>bytes32(0)\<close>.\<close>

definition FHE_isInitialized :: "euint64 \<Rightarrow> bool" where
  "FHE_isInitialized h = (h \<noteq> 0)"

text \<open>
  Modelled from the spec: \<^verbatim>\<open>FHE.asEuint64\<close>, the spec's \<open>freshZero\<close> when applied to 0. The
  handle is derived from the plaintext alone.
\<close>

definition FHE_asEuint64 :: "fhe \<Rightarrow> uint64 \<Rightarrow> euint64 \<times> fhe" where
  "FHE_asEuint64 f v = fhe_mint f (Trivial_handle v) v"

text \<open>
  Modelled from the spec: \<^verbatim>\<open>FHE.add\<close>, the spec's \<open>homomorphicAdd\<close>
  (\<open>homomorphicAdd(prior or freshZero, delta)\<close>): an operand that is not initialized is
  replaced by a ciphertext of zero, the result is a ciphertext of the sum of the two
  plaintexts in \<^verbatim>\<open>uint64\<close> arithmetic, and the operation fails only for a handle that is
  no ciphertext.
\<close>

definition FHE_add :: "fhe \<Rightarrow> euint64 \<Rightarrow> euint64 \<Rightarrow> error + (euint64 \<times> fhe)" where
  "FHE_add f a b =
     (let (a', f1) = (if FHE_isInitialized a then (a, f) else FHE_asEuint64 f 0);
          (b', f2) = (if FHE_isInitialized b then (b, f1) else FHE_asEuint64 f1 0)
      in case (ciphertexts f2 a', ciphertexts f2 b') of
           (Some x, Some y) \<Rightarrow> Inr (fhe_mint f2 (Add_handle a' b') (x + y))
         | _ \<Rightarrow> Inl Fhe_reverted)"

text \<open>Modelled from the spec: \<^verbatim>\<open>FHE.allow\<close>, the spec's \<open>grantAccess\<close>: additive, idempotent.\<close>

definition FHE_allow :: "fhe \<Rightarrow> euint64 \<Rightarrow> address \<Rightarrow> fhe" where
  "FHE_allow f h p = f\<lparr>acl := insert (h, p) (acl f)\<rparr>"

text \<open>Modelled from the spec: \<open>decrypt(handle, principal)\<close>, refused without a grant.\<close>

definition decrypt :: "fhe \<Rightarrow> euint64 \<Rightarrow> address \<Rightarrow> error + uint64" where
  "decrypt f h p =
     (if (h, p) \<in> acl f
      then (case ciphertexts f h of Some v \<Rightarrow> Inr v | None \<Rightarrow> Inl Fhe_reverted)
      else Inl Access_denied)"


subsection \<open>Contract storage, events and the calls made to the token\<close>

record Campaign =
  name :: string
  targetAmount :: uint64
  endTime :: uint64

text \<open>
  The immutables \<^verbatim>\<open>cEth\<close> and \<^verbatim>\<open>fundraiser\<close>, the contract's own address
  (\<^verbatim>\<open>address(this)\<close>), and the storage variables; the private ones
  (\<^verbatim>\<open>_campaign\<close>, \<^verbatim>\<open>_totalRaised\<close>, \<^verbatim>\<open>_contributions\<close>) carry the prefix \<open>priv\<close>.
\<close>

record contract =
  cEth :: address
  fundraiser :: address
  this :: address
  priv_campaign :: Campaign
  priv_totalRaised :: euint64
  isClosed :: bool
  lastContributionAt :: timestamp
  priv_contributions :: "address \<Rightarrow> euint64"

datatype event =
    CampaignUpdated string uint64 uint64
  | ContributionReceived address euint64 timestamp
  | CampaignClosed address euint64 timestamp

datatype ledger_call =
    ConfidentialTransferFrom address address externalEuint64 proof_bytes
  | ConfidentialTransfer address euint64

text \<open>
  Everything a transaction can change: the contract's storage, the coprocessor, the event
  log, and the transfers requested from the token.
\<close>

record world =
  con :: contract
  enc :: fhe
  events :: "event list"
  ledger_calls :: "ledger_call list"

text \<open>What a collaborator answers to a call: it reverts, or it returns.\<close>

datatype 'a reply = Reverted | Returned 'a

text \<open>
  A function body returns its result, or the revert reason, together with the state at
  the point where it stopped.
\<close>

type_synonym 'a exec = "(error + 'a) \<times> world"

text \<open>
  A transaction that reverts leaves no trace: the EVM discards every storage write, every
  log entry and every effect of the calls it made.
\<close>

definition transact :: "(world \<Rightarrow> 'a exec) \<Rightarrow> world \<Rightarrow> 'a exec" where
  "transact body w =
     (case body w of
        (Inl e, _) \<Rightarrow> (Inl e, w)
      | (Inr r, w') \<Rightarrow> (Inr r, w'))"

subsection \<open>The token, as the contract sees it\<close>

text \<open>
  Modelled from the spec: the ConfidentialLedger (contracts/ERC7984ETH.sol is not among
  the sources). \<open>transferWithProof\<close> validates the claimed amount against its proof and
  moves it, returning a ciphertext of the amount moved, or it fails; what it answers is
  the token's business and an input here. The request is recorded.
\<close>

definition cEth_confidentialTransferFrom ::
  "uint64 reply \<Rightarrow> address \<Rightarrow> address \<Rightarrow> externalEuint64 \<Rightarrow> proof_bytes \<Rightarrow> world \<Rightarrow> euint64 exec"
where
  "cEth_confidentialTransferFrom answer from to encryptedAmount inputProof w =
     (let w1 = w\<lparr>ledger_calls :=
                  ledger_calls w @ [ConfidentialTransferFrom from to encryptedAmount inputProof]\<rparr>
      in case answer of
           Reverted \<Rightarrow> (Inl Ledger_reverted, w1)
         | Returned amount \<Rightarrow>
             (let (transferred, f) =
                    fhe_mint (enc w1)
                      (Transfer_handle from to encryptedAmount inputProof amount) amount
              in (Inr transferred, w1\<lparr>enc := f\<rparr>)))"

text \<open>Modelled from the spec: \<open>transfer(from, to, amount)\<close> out of the caller's own custody.\<close>

definition cEth_confidentialTransfer ::
  "unit reply \<Rightarrow> address \<Rightarrow> euint64 \<Rightarrow> world \<Rightarrow> unit exec"
where
  "cEth_confidentialTransfer answer to amount w =
     (let w1 = w\<lparr>ledger_calls := ledger_calls w @ [ConfidentialTransfer to amount]\<rparr>
      in case answer of
           Reverted \<Rightarrow> (Inl Ledger_reverted, w1)
         | Returned _ \<Rightarrow> (Inr (), w1))"

subsection \<open>The contract\<close>

text \<open>\<^verbatim>\<open>_setCampaign\<close>: four checks, then the write and the event.\<close>

definition setCampaign :: "timestamp \<Rightarrow> string \<Rightarrow> uint64 \<Rightarrow> uint64 \<Rightarrow> world \<Rightarrow> unit exec" where
  "setCampaign now nm target end_time w =
     (if isClosed (con w) then (Inl Campaign_closed, w)
      else if \<not> (0 < length nm) then (Inl Name_required, w)
      else if \<not> (0 < target) then (Inl Target_required, w)
      else if \<not> (now < unat end_time) then (Inl End_time_must_be_in_future, w)
      else (Inr (),
            w\<lparr>con := (con w)\<lparr>priv_campaign :=
                       \<lparr>name = nm, targetAmount = target, endTime = end_time\<rparr>\<rparr>,
              events := events w @ [CampaignUpdated nm target end_time]\<rparr>))"

text \<open>
  The constructor runs on zeroed storage; \<open>sender\<close> is the deployer and \<open>self\<close> the address
  the contract is created at. The coprocessor exists before the contract does.
\<close>

definition fresh_storage :: "address \<Rightarrow> address \<Rightarrow> address \<Rightarrow> contract" where
  "fresh_storage token sender self =
     \<lparr>cEth = token, fundraiser = sender, this = self,
      priv_campaign = \<lparr>name = [], targetAmount = 0, endTime = 0\<rparr>,
      priv_totalRaised = 0, isClosed = False, lastContributionAt = 0,
      priv_contributions = (\<lambda>_. 0)\<rparr>"

definition constructor ::
  "address \<Rightarrow> address \<Rightarrow> timestamp \<Rightarrow> fhe \<Rightarrow> address \<Rightarrow> string \<Rightarrow> uint64 \<Rightarrow> uint64 \<Rightarrow> error + world"
where
  "constructor sender self now f tokenAddress nm target end_time =
     (if \<not> (tokenAddress \<noteq> 0) then Inl Token_required
      else case setCampaign now nm target end_time
                  \<lparr>con = fresh_storage tokenAddress sender self, enc = f,
                   events = [], ledger_calls = []\<rparr> of
             (Inl e, _) \<Rightarrow> Inl e
           | (Inr _, w) \<Rightarrow> Inr w)"

text \<open>\<^verbatim>\<open>configureCampaign\<close>, behind the modifier \<^verbatim>\<open>onlyFundraiser\<close>.\<close>

definition configureCampaign_body ::
  "address \<Rightarrow> timestamp \<Rightarrow> string \<Rightarrow> uint64 \<Rightarrow> uint64 \<Rightarrow> world \<Rightarrow> unit exec"
where
  "configureCampaign_body sender now nm target end_time w =
     (if \<not> (sender = fundraiser (con w)) then (Inl Only_fundraiser, w)
      else setCampaign now nm target end_time w)"

definition configureCampaign ::
  "address \<Rightarrow> timestamp \<Rightarrow> string \<Rightarrow> uint64 \<Rightarrow> uint64 \<Rightarrow> world \<Rightarrow> unit exec"
where
  "configureCampaign sender now nm target end_time =
     transact (configureCampaign_body sender now nm target end_time)"

text \<open>
  \<^verbatim>\<open>contribute\<close>. \<open>is_operator\<close> is what \<^verbatim>\<open>cEth.isOperator(msg.sender, address(this))\<close>
  answers and \<open>answer\<close> what \<^verbatim>\<open>cEth.confidentialTransferFrom\<close> answers.
\<close>

definition contribute_body ::
  "address \<Rightarrow> timestamp \<Rightarrow> bool \<Rightarrow> uint64 reply \<Rightarrow> externalEuint64 \<Rightarrow> proof_bytes \<Rightarrow>
   world \<Rightarrow> euint64 exec"
where
  "contribute_body sender now is_operator answer encryptedAmount inputProof w =
     (if \<not> (\<not> isClosed (con w)) then (Inl Campaign_closed, w)
      else if \<not> (now \<le> unat (endTime (priv_campaign (con w)))) then (Inl Past_end_time, w)
      else if \<not> is_operator then (Inl Operator_missing, w)
      else
        case cEth_confidentialTransferFrom answer sender (this (con w))
               encryptedAmount inputProof w of
          (Inl e, w1) \<Rightarrow> (Inl e, w1)
        | (Inr transferred, w1) \<Rightarrow>
            (case FHE_add (enc w1) (priv_contributions (con w1) sender) transferred of
               Inl e \<Rightarrow> (Inl e, w1)
             | Inr (newContribution, f2) \<Rightarrow>
                 (let f3 = FHE_allow f2 newContribution (this (con w1));
                      f4 = FHE_allow f3 newContribution sender;
                      f5 = FHE_allow f4 newContribution (fundraiser (con w1));
                      w2 = w1\<lparr>enc := f5,
                              con := (con w1)\<lparr>priv_contributions :=
                                (priv_contributions (con w1))(sender := newContribution)\<rparr>\<rparr>
                  in case FHE_add (enc w2) (priv_totalRaised (con w2)) transferred of
                       Inl e \<Rightarrow> (Inl e, w2)
                     | Inr (updatedTotal, f6) \<Rightarrow>
                         (let f7 = FHE_allow f6 updatedTotal (this (con w2));
                              f8 = FHE_allow f7 updatedTotal (fundraiser (con w2));
                              f9 = FHE_allow f8 updatedTotal sender;
                              w3 = w2\<lparr>enc := f9,
                                      con := (con w2)\<lparr>priv_totalRaised := updatedTotal\<rparr>\<rparr>;
                              w4 = w3\<lparr>con := (con w3)\<lparr>lastContributionAt := now\<rparr>\<rparr>;
                              w5 = w4\<lparr>events := events w4 @
                                      [ContributionReceived sender transferred now]\<rparr>
                          in (Inr newContribution, w5)))))"

definition contribute ::
  "address \<Rightarrow> timestamp \<Rightarrow> bool \<Rightarrow> uint64 reply \<Rightarrow> externalEuint64 \<Rightarrow> proof_bytes \<Rightarrow>
   world \<Rightarrow> euint64 exec"
where
  "contribute sender now is_operator answer encryptedAmount inputProof =
     transact (contribute_body sender now is_operator answer encryptedAmount inputProof)"

text \<open>
  \<^verbatim>\<open>closeCampaign\<close>: the flag is written first, then the payout is read (the ciphertext
  of zero, granted to the contract itself, if the total was never written), then the
  token is asked to move it.
\<close>

definition closeCampaign_body :: "address \<Rightarrow> timestamp \<Rightarrow> unit reply \<Rightarrow> world \<Rightarrow> unit exec" where
  "closeCampaign_body sender now answer w =
     (if \<not> (sender = fundraiser (con w)) then (Inl Only_fundraiser, w)
      else if \<not> (\<not> isClosed (con w)) then (Inl Already_closed, w)
      else
        (let w1 = w\<lparr>con := (con w)\<lparr>isClosed := True\<rparr>\<rparr>;
             (payout, w2) =
               (if \<not> FHE_isInitialized (priv_totalRaised (con w1))
                then (let (z, f1) = FHE_asEuint64 (enc w1) 0;
                          f2 = FHE_allow f1 z (this (con w1))
                      in (z, w1\<lparr>enc := f2\<rparr>))
                else (priv_totalRaised (con w1), w1))
         in case cEth_confidentialTransfer answer (fundraiser (con w2)) payout w2 of
              (Inl e, w3) \<Rightarrow> (Inl e, w3)
            | (Inr _, w3) \<Rightarrow>
                (Inr (), w3\<lparr>events := events w3 @
                               [CampaignClosed (fundraiser (con w3)) payout now]\<rparr>)))"

definition closeCampaign :: "address \<Rightarrow> timestamp \<Rightarrow> unit reply \<Rightarrow> world \<Rightarrow> unit exec" where
  "closeCampaign sender now answer = transact (closeCampaign_body sender now answer)"

text \<open>The views.\<close>

definition getCampaign :: "world \<Rightarrow> string \<times> uint64 \<times> uint64 \<times> bool" where
  "getCampaign w =
     (let campaign = priv_campaign (con w)
      in (name campaign, targetAmount campaign, endTime campaign, isClosed (con w)))"

definition timeRemaining :: "timestamp \<Rightarrow> world \<Rightarrow> uint64" where
  "timeRemaining now w =
     (if now \<ge> unat (endTime (priv_campaign (con w))) then 0
      else word_of_nat (unat (endTime (priv_campaign (con w))) - now))"

definition totalRaised :: "world \<Rightarrow> euint64" where
  "totalRaised w = priv_totalRaised (con w)"

definition contributionOf :: "world \<Rightarrow> address \<Rightarrow> euint64" where
  "contributionOf w contributor = priv_contributions (con w) contributor"


subsection \<open>Sequences of transactions\<close>

text \<open>
  The state-changing entry points with their arguments, the block timestamp and what the
  token answers. A history is a list of such calls, each a transaction of its own.
\<close>

datatype call =
    ConfigureCampaign address timestamp string uint64 uint64
  | Contribute address timestamp bool "uint64 reply" externalEuint64 proof_bytes
  | CloseCampaign address timestamp "unit reply"

fun perform :: "world \<Rightarrow> call \<Rightarrow> (error + unit) \<times> world" where
  "perform w (ConfigureCampaign s n nm tg et) = configureCampaign s n nm tg et w"
| "perform w (Contribute s n op ans e p) =
     (case contribute s n op ans e p w of (r, w') \<Rightarrow> (map_sum id (\<lambda>_. ()) r, w'))"
| "perform w (CloseCampaign s n ans) = closeCampaign s n ans w"

definition step :: "world \<Rightarrow> call \<Rightarrow> world" where
  "step w c = snd (perform w c)"

definition succeeds :: "world \<Rightarrow> call \<Rightarrow> bool" where
  "succeeds w c = (case fst (perform w c) of Inl _ \<Rightarrow> False | Inr _ \<Rightarrow> True)"

fun run :: "world \<Rightarrow> call list \<Rightarrow> world" where
  "run w [] = w"
| "run w (c # cs) = run (step w c) cs"

text \<open>
  The accepted contributions of a history, oldest first: who contributed, and the
  plaintext of the amount the token reported as moved.
\<close>

fun moved :: "world \<Rightarrow> call \<Rightarrow> (address \<times> uint64) list" where
  "moved w (Contribute s n op (Returned a) e p) =
     (if succeeds w (Contribute s n op (Returned a) e p) then [(s, a)] else [])"
| "moved w _ = []"

fun accepted :: "world \<Rightarrow> call list \<Rightarrow> (address \<times> uint64) list" where
  "accepted w [] = []"
| "accepted w (c # cs) = moved w c @ accepted (step w c) cs"

definition amounts_of :: "address \<Rightarrow> (address \<times> uint64) list \<Rightarrow> uint64 list" where
  "amounts_of c L = map snd (filter (\<lambda>x. fst x = c) L)"

subsection \<open>Invariants\<close>

text \<open>
  A coprocessor is well formed when handle 0 stands for nothing and every ciphertext it
  keeps has the plaintext its handle is derived for. Nothing is asked of the grants.
\<close>

definition fhe_wf :: "fhe \<Rightarrow> bool" where
  "fhe_wf f \<longleftrightarrow>
     ciphertexts f 0 = None \<and>
     (\<forall>h v. ciphertexts f h = Some v \<longrightarrow> v = denotes h)"

text \<open>A handle the contract may pass to \<^verbatim>\<open>FHE.add\<close>: uninitialized, or a ciphertext.\<close>

definition usable :: "fhe \<Rightarrow> euint64 \<Rightarrow> bool" where
  "usable f h \<longleftrightarrow> h = 0 \<or> ciphertexts f h \<noteq> None"

definition clear_of :: "fhe \<Rightarrow> euint64 \<Rightarrow> uint64" where
  "clear_of f h = (case ciphertexts f h of Some v \<Rightarrow> v | None \<Rightarrow> 0)"

definition storage_ok :: "world \<Rightarrow> bool" where
  "storage_ok w \<longleftrightarrow>
     fhe_wf (enc w) \<and>
     (\<forall>c. usable (enc w) (priv_contributions (con w) c)) \<and>
     usable (enc w) (priv_totalRaised (con w))"

text \<open>The checks of \<^verbatim>\<open>contribute\<close> pass and the token moves the amount.\<close>

definition accepts :: "world \<Rightarrow> timestamp \<Rightarrow> bool \<Rightarrow> uint64 reply \<Rightarrow> bool" where
  "accepts w n op ans \<longleftrightarrow>
     \<not> isClosed (con w) \<and> n \<le> unat (endTime (priv_campaign (con w))) \<and> op \<and> ans \<noteq> Reverted"

text \<open>
  A stored handle agrees with a list of amounts: never written while the list is empty,
  afterwards a ciphertext of their sum.
\<close>

definition holds :: "fhe \<Rightarrow> euint64 \<Rightarrow> uint64 list \<Rightarrow> bool" where
  "holds f h as \<longleftrightarrow>
     (if as = [] then h = 0 else h \<noteq> 0 \<and> ciphertexts f h = Some (sum_list as))"

text \<open>The storage agrees with the accepted contributions \<open>L\<close>.\<close>

definition books :: "world \<Rightarrow> (address \<times> uint64) list \<Rightarrow> bool" where
  "books w L \<longleftrightarrow>
     fhe_wf (enc w) \<and>
     (\<forall>c. holds (enc w) (priv_contributions (con w) c) (amounts_of c L)) \<and>
     (\<forall>c. amounts_of c L \<noteq> [] \<longrightarrow>
          (priv_contributions (con w) c, c) \<in> acl (enc w) \<and>
          (priv_contributions (con w) c, fundraiser (con w)) \<in> acl (enc w)) \<and>
     holds (enc w) (priv_totalRaised (con w)) (map snd L) \<and>
     (L \<noteq> [] \<longrightarrow> (priv_totalRaised (con w), fundraiser (con w)) \<in> acl (enc w))"

subsection \<open>A concrete deployment\<close>

text \<open>
  The deployment of the test suite: the campaign "Relief Pool" with target 5000000,
  deployed at time 1000 and ending at 4600, on a coprocessor that has produced nothing.
\<close>

definition deployer :: address where "deployer = 0xD0"
definition alice :: address where "alice = 0xA1"
definition bob :: address where "bob = 0xB0"
definition token_address :: address where "token_address = 0xCE"
definition campaign_address :: address where "campaign_address = 0xF0"

definition fhe0 :: fhe where
  "fhe0 = \<lparr>ciphertexts = (\<lambda>_. None), acl = {}\<rparr>"

definition world0 :: world where
  "world0 =
     \<lparr>con = \<lparr>cEth = token_address, fundraiser = deployer, this = campaign_address,
             priv_campaign = \<lparr>name = ''Relief Pool'', targetAmount = 5000000, endTime = 4600\<rparr>,
             priv_totalRaised = 0, isClosed = False, lastContributionAt = 0,
             priv_contributions = (\<lambda>_. 0)\<rparr>,
      enc = fhe0, events = [CampaignUpdated ''Relief Pool'' 5000000 4600], ledger_calls = []\<rparr>"

text \<open>
  The two contributions of the spec's example, 2500000 and then 750000 by alice, with one
  of 1000000 by bob in between.
\<close>

definition example_gifts :: "call list" where
  "example_gifts = [Contribute alice 2000 True (Returned 2500000) 7 [],
                Contribute bob 2001 True (Returned 1000000) 8 [],
                Contribute alice 2002 True (Returned 750000) 9 []]"

text \<open>The deployment after one contribution of 2500000 by alice.\<close>

definition after_one_gift :: world where
  "after_one_gift = run world0 [Contribute alice 2000 True (Returned 2500000) 7 []]"

text \<open>The deployment closed by its fundraiser at time 3000, and calls made afterwards.\<close>

definition closed_world :: world where
  "closed_world = snd (closeCampaign deployer 3000 (Returned ()) world0)"

definition after_close_calls :: "call list" where
  "after_close_calls =
     [ConfigureCampaign deployer 3100 ''Again'' 9 9000,
      Contribute alice 3200 True (Returned 5) 7 [],
      CloseCampaign deployer 3300 (Returned ())]"



section \<open>Properties\<close>

subsection \<open>The coprocessor\<close>

lemma handle_nonzero [simp]:
  "Trivial_handle v \<noteq> 0" "Add_handle a b \<noteq> 0" "Transfer_handle s t x p u \<noteq> 0"
  by (simp_all add: zero_euint64_def)

lemma denotes_zero [simp]: "denotes 0 = 0"
  by (simp add: zero_euint64_def)


lemma fhe_mint_spec:
  assumes "fhe_wf f" and "h \<noteq> 0" and "v = denotes h" and "fhe_mint f h v = (h', f')"
  shows "h' = h" "ciphertexts f' h = Some v"
    "\<And>k. ciphertexts f k \<noteq> None \<Longrightarrow> ciphertexts f' k = ciphertexts f k"
    "\<And>k. k \<noteq> h \<Longrightarrow> ciphertexts f' k = ciphertexts f k"
    "acl f' = acl f" "fhe_wf f'"
proof -
  have f': "f' = f\<lparr>ciphertexts := (ciphertexts f)(h \<mapsto> v)\<rparr>" and hh: "h' = h"
    using assms(4) by (auto simp: fhe_mint_def)
  show "h' = h" by (rule hh)
  show "ciphertexts f' h = Some v" by (simp add: f')
  show "\<And>k. k \<noteq> h \<Longrightarrow> ciphertexts f' k = ciphertexts f k" by (simp add: f')
  show "acl f' = acl f" by (simp add: f')
  show "fhe_wf f'" using assms(1,2,3) by (auto simp: f' fhe_wf_def)
  show "ciphertexts f' k = ciphertexts f k" if "ciphertexts f k \<noteq> None" for k
  proof (cases "k = h")
    case True
    with that assms(1,3) show ?thesis by (auto simp: f' fhe_wf_def)
  next
    case False
    then show ?thesis by (simp add: f')
  qed
qed

lemma clear_of_denotes:
  "fhe_wf f \<Longrightarrow> usable f h \<Longrightarrow> clear_of f h = denotes h"
  by (auto simp: fhe_wf_def usable_def clear_of_def split: option.splits)

lemma FHE_add_spec:
  assumes wf: "fhe_wf f" and ua: "usable f a" and ub: "usable f b"
  shows "\<exists>h f'. FHE_add f a b = Inr (h, f') \<and> h \<noteq> 0 \<and>
           ciphertexts f' h = Some (clear_of f a + clear_of f b) \<and>
           (\<forall>k. ciphertexts f k \<noteq> None \<longrightarrow> ciphertexts f' k = ciphertexts f k) \<and>
           acl f' = acl f \<and> fhe_wf f'"
proof -
  define a' where "a' = (if a = 0 then Trivial_handle 0 else a)"
  define f1 where "f1 = (if a = 0 then snd (fhe_mint f (Trivial_handle 0) 0) else f)"
  define b' where "b' = (if b = 0 then Trivial_handle 0 else b)"
  define f2 where "f2 = (if b = 0 then snd (fhe_mint f1 (Trivial_handle 0) 0) else f1)"
  have m1: "fhe_mint f (Trivial_handle 0) 0 = (Trivial_handle 0, snd (fhe_mint f (Trivial_handle 0) 0))"
    by (simp add: fhe_mint_def)
  note s1 = fhe_mint_spec [OF wf _ _ m1, simplified]
  have wf1: "fhe_wf f1" and k1: "\<And>k. ciphertexts f k \<noteq> None \<Longrightarrow> ciphertexts f1 k = ciphertexts f k"
    and acl1: "acl f1 = acl f"
    using wf s1 by (auto simp: f1_def)
  have m2: "fhe_mint f1 (Trivial_handle 0) 0 = (Trivial_handle 0, snd (fhe_mint f1 (Trivial_handle 0) 0))"
    by (simp add: fhe_mint_def)
  note s2 = fhe_mint_spec [OF wf1 _ _ m2, simplified]
  have wf2: "fhe_wf f2" and k2: "\<And>k. ciphertexts f1 k \<noteq> None \<Longrightarrow> ciphertexts f2 k = ciphertexts f1 k"
    and acl2: "acl f2 = acl f"
    using wf1 s2 acl1 by (auto simp: f2_def)
  have a1: "ciphertexts f1 a' \<noteq> None" "a' \<noteq> 0"
    using ua s1(2) k1 [of a] by (auto simp: a'_def f1_def usable_def)
  then have a2: "ciphertexts f2 a' \<noteq> None" using k2 [of a'] by simp
  have b2: "ciphertexts f2 b' \<noteq> None" "b' \<noteq> 0"
    using ub s2(2) k1 [of b] k2 [of b] by (auto simp: b'_def f2_def usable_def)
  obtain x y where x: "ciphertexts f2 a' = Some x" and y: "ciphertexts f2 b' = Some y"
    using a2 b2 by auto
  have xd: "x = denotes a'" and yd: "y = denotes b'"
    using wf2 x y by (auto simp: fhe_wf_def)
  have ca: "clear_of f a = denotes a'" and cb: "clear_of f b = denotes b'"
    using clear_of_denotes [OF wf ua] clear_of_denotes [OF wf ub]
    by (auto simp: a'_def b'_def)
  define h where "h = Add_handle a' b'"
  have m3: "fhe_mint f2 h (x + y) = (h, snd (fhe_mint f2 h (x + y)))" by (simp add: fhe_mint_def)
  have hv: "x + y = denotes h" by (simp add: h_def xd yd)
  note s3 = fhe_mint_spec [OF wf2 _ hv m3]
  have hn: "h \<noteq> 0" by (simp add: h_def)
  have p1: "(if FHE_isInitialized a then (a, f) else FHE_asEuint64 f 0) = (a', f1)"
    by (simp add: FHE_isInitialized_def FHE_asEuint64_def a'_def f1_def fhe_mint_def)
  have p2: "(if FHE_isInitialized b then (b, f1) else FHE_asEuint64 f1 0) = (b', f2)"
    by (simp add: FHE_isInitialized_def FHE_asEuint64_def b'_def f2_def fhe_mint_def)
  have "FHE_add f a b = Inr (fhe_mint f2 h (x + y))"
    unfolding FHE_add_def Let_def p1 prod.case p2 x y h_def by simp
  then have run: "FHE_add f a b = Inr (h, snd (fhe_mint f2 h (x + y)))"
    using m3 by simp
  have keep: "ciphertexts (snd (fhe_mint f2 h (x + y))) k = ciphertexts f k"
    if "ciphertexts f k \<noteq> None" for k
    using that k1 [of k] k2 [of k] s3(3) [OF hn, of k] by simp
  show ?thesis
    using run hn s3(2) [OF hn] s3(5) [OF hn] s3(6) [OF hn] keep acl2 xd yd ca cb
    by simp
qed

lemma FHE_allow_simps [simp]:
  "ciphertexts (FHE_allow f h p) = ciphertexts f"
  "acl (FHE_allow f h p) = insert (h, p) (acl f)"
  by (simp_all add: FHE_allow_def)

lemma FHE_allow_wf: "fhe_wf (FHE_allow f h p) = fhe_wf f"
  by (simp add: fhe_wf_def)

lemma usable_kept:
  assumes "fhe_wf f" and "fhe_wf f'" and "usable f h"
    and "\<And>k. ciphertexts f k \<noteq> None \<Longrightarrow> ciphertexts f' k = ciphertexts f k"
  shows "usable f' h" and "clear_of f' h = clear_of f h"
  using assms by (auto simp: usable_def clear_of_def fhe_wf_def)

lemma contribute_body_ok:
  assumes ok: "storage_ok w" and opn: "\<not> isClosed (con w)"
    and intime: "now \<le> unat (endTime (priv_campaign (con w)))"
  shows "\<exists>h t f'.
     contribute_body s now True (Returned a) e p w =
       (Inr h,
        \<lparr>con = (con w)\<lparr>priv_contributions := (priv_contributions (con w))(s := h),
                       priv_totalRaised := t, lastContributionAt := now\<rparr>,
         enc = f',
         events = events w @
           [ContributionReceived s (Transfer_handle s (this (con w)) e p a) now],
         ledger_calls = ledger_calls w @ [ConfidentialTransferFrom s (this (con w)) e p]\<rparr>) \<and>
     h \<noteq> 0 \<and> t \<noteq> 0 \<and>
     ciphertexts f' h = Some (clear_of (enc w) (priv_contributions (con w) s) + a) \<and>
     ciphertexts f' t = Some (clear_of (enc w) (priv_totalRaised (con w)) + a) \<and>
     (\<forall>k. ciphertexts (enc w) k \<noteq> None \<longrightarrow> ciphertexts f' k = ciphertexts (enc w) k) \<and>
     acl f' = acl (enc w) \<union>
        {(h, this (con w)), (h, s), (h, fundraiser (con w)),
         (t, this (con w)), (t, fundraiser (con w)), (t, s)} \<and>
     fhe_wf f'"
proof -
  let ?f = "enc w"
  let ?tr = "Transfer_handle s (this (con w)) e p a"
  let ?C = "priv_contributions (con w) s"
  let ?T = "priv_totalRaised (con w)"
  have wf: "fhe_wf ?f" using ok by (simp add: storage_ok_def)
  define f1 where "f1 = snd (fhe_mint ?f ?tr a)"
  have m: "fhe_mint ?f ?tr a = (?tr, f1)" by (simp add: f1_def fhe_mint_def)
  have hz: "?tr \<noteq> 0" and hv: "a = denotes ?tr" by simp_all
  note ms = fhe_mint_spec [OF wf hz hv m]
  have uc: "usable ?f ?C" and ut: "usable ?f ?T"
    using ok by (simp_all add: storage_ok_def)
  note c1 = usable_kept [OF wf ms(6) uc ms(3)]
  note t1 = usable_kept [OF wf ms(6) ut ms(3)]
  have un1: "usable f1 ?tr" and cn1: "clear_of f1 ?tr = a"
    using ms(2) by (simp_all add: usable_def clear_of_def)
  obtain h f2 where a1: "FHE_add f1 ?C ?tr = Inr (h, f2)"
    and h: "h \<noteq> 0" "ciphertexts f2 h = Some (clear_of f1 ?C + clear_of f1 ?tr)"
      "\<And>k. ciphertexts f1 k \<noteq> None \<Longrightarrow> ciphertexts f2 k = ciphertexts f1 k"
      "acl f2 = acl f1" "fhe_wf f2"
    using FHE_add_spec [OF ms(6) c1(1) un1] by blast
  define f5 where "f5 = FHE_allow (FHE_allow (FHE_allow f2 h (this (con w))) h s) h (fundraiser (con w))"
  have wf5: "fhe_wf f5" using h(5) by (simp add: f5_def FHE_allow_wf)
  have c5: "ciphertexts f5 = ciphertexts f2" by (simp add: f5_def)
  have k5: "\<And>k. ciphertexts f1 k \<noteq> None \<Longrightarrow> ciphertexts f5 k = ciphertexts f1 k"
    using h(3) by (simp add: c5)
  note t5 = usable_kept [OF ms(6) wf5 t1(1) k5]
  note n5 = usable_kept [OF ms(6) wf5 un1 k5]
  obtain t f6 where a2: "FHE_add f5 ?T ?tr = Inr (t, f6)"
    and t: "t \<noteq> 0" "ciphertexts f6 t = Some (clear_of f5 ?T + clear_of f5 ?tr)"
      "\<And>k. ciphertexts f5 k \<noteq> None \<Longrightarrow> ciphertexts f6 k = ciphertexts f5 k"
      "acl f6 = acl f5" "fhe_wf f6"
    using FHE_add_spec [OF wf5 t5(1) n5(1)] by blast
  define f9 where "f9 = FHE_allow (FHE_allow (FHE_allow f6 t (this (con w))) t (fundraiser (con w))) t s"
  have wf9: "fhe_wf f9" using t(5) by (simp add: f9_def FHE_allow_wf)
  have c9: "ciphertexts f9 = ciphertexts f6" by (simp add: f9_def)
  have run: "contribute_body s now True (Returned a) e p w =
       (Inr h,
        \<lparr>con = (con w)\<lparr>priv_contributions := (priv_contributions (con w))(s := h),
                       priv_totalRaised := t, lastContributionAt := now\<rparr>,
         enc = f9,
         events = events w @ [ContributionReceived s ?tr now],
         ledger_calls = ledger_calls w @ [ConfidentialTransferFrom s (this (con w)) e p]\<rparr>)"
    using opn intime m a1 a2
    by (simp add: contribute_body_def cEth_confidentialTransferFrom_def Let_def f5_def f9_def)
  have "ciphertexts f9 h = Some (clear_of ?f ?C + a)"
    using h(2) t(3) [of h] by (simp add: c9 c5 c1(2) cn1)
  moreover have "ciphertexts f9 t = Some (clear_of ?f ?T + a)"
    using t(2) by (simp add: c9 t5(2) t1(2) n5(2) cn1)
  moreover have "ciphertexts f9 k = ciphertexts ?f k" if "ciphertexts ?f k \<noteq> None" for k
    using that ms(3) [of k] h(3) [of k] t(3) [of k] by (simp add: c9 c5)
  moreover have "acl f9 = acl ?f \<union>
        {(h, this (con w)), (h, s), (h, fundraiser (con w)),
         (t, this (con w)), (t, fundraiser (con w)), (t, s)}"
    using ms(5) h(4) t(4) by (auto simp: f9_def f5_def)
  ultimately show ?thesis using run wf9 h(1) t(1) by blast
qed

subsection \<open>What each entry point returns\<close>

lemma transact_failure: "fst (transact body w) = Inl e \<Longrightarrow> snd (transact body w) = w"
  by (auto simp: transact_def split: prod.splits sum.splits)

lemma holds_usable: "holds f h as \<Longrightarrow> usable f h"
  by (auto simp: holds_def usable_def split: if_splits)

lemma holds_clear: "fhe_wf f \<Longrightarrow> holds f h as \<Longrightarrow> clear_of f h = sum_list as"
  by (auto simp: holds_def clear_of_def fhe_wf_def split: if_splits)

lemma books_storage_ok: "books w L \<Longrightarrow> storage_ok w"
  by (auto simp: books_def storage_ok_def intro: holds_usable)

lemma holds_mono:
  assumes "holds f h as" "\<And>k. ciphertexts f k \<noteq> None \<Longrightarrow> ciphertexts f' k = ciphertexts f k"
  shows "holds f' h as"
  using assms by (auto simp: holds_def split: if_splits)

lemma configureCampaign_result:
  "configureCampaign s n nm tg et w =
     (if s \<noteq> fundraiser (con w) then (Inl Only_fundraiser, w)
      else if isClosed (con w) then (Inl Campaign_closed, w)
      else if nm = [] then (Inl Name_required, w)
      else if tg = 0 then (Inl Target_required, w)
      else if unat et \<le> n then (Inl End_time_must_be_in_future, w)
      else (Inr (),
            w\<lparr>con := (con w)\<lparr>priv_campaign := \<lparr>name = nm, targetAmount = tg, endTime = et\<rparr>\<rparr>,
              events := events w @ [CampaignUpdated nm tg et]\<rparr>))"
  by (simp add: configureCampaign_def configureCampaign_body_def setCampaign_def transact_def
      word_greater_zero_iff not_less)

lemma closeCampaign_result:
  "closeCampaign s n ans w =
     (if s \<noteq> fundraiser (con w) then (Inl Only_fundraiser, w)
      else if isClosed (con w) then (Inl Already_closed, w)
      else case ans of
        Reverted \<Rightarrow> (Inl Ledger_reverted, w)
      | Returned _ \<Rightarrow>
          (if priv_totalRaised (con w) = 0
           then (Inr (),
                 w\<lparr>con := (con w)\<lparr>isClosed := True\<rparr>,
                   enc := FHE_allow (snd (fhe_mint (enc w) (Trivial_handle 0) 0))
                            (Trivial_handle 0) (this (con w)),
                   ledger_calls := ledger_calls w @
                      [ConfidentialTransfer (fundraiser (con w)) (Trivial_handle 0)],
                   events := events w @
                      [CampaignClosed (fundraiser (con w)) (Trivial_handle 0) n]\<rparr>)
           else (Inr (),
                 w\<lparr>con := (con w)\<lparr>isClosed := True\<rparr>,
                   ledger_calls := ledger_calls w @
                      [ConfidentialTransfer (fundraiser (con w)) (priv_totalRaised (con w))],
                   events := events w @
                      [CampaignClosed (fundraiser (con w)) (priv_totalRaised (con w)) n]\<rparr>)))"
  by (simp add: closeCampaign_def closeCampaign_body_def transact_def Let_def
      cEth_confidentialTransfer_def FHE_isInitialized_def FHE_asEuint64_def fhe_mint_def
      split: reply.splits)

lemma contribute_refused:
  "isClosed (con w) \<Longrightarrow> contribute_body s n op ans e p w = (Inl Campaign_closed, w)"
  "\<not> isClosed (con w) \<Longrightarrow> unat (endTime (priv_campaign (con w))) < n \<Longrightarrow>
     contribute_body s n op ans e p w = (Inl Past_end_time, w)"
  "\<not> isClosed (con w) \<Longrightarrow> n \<le> unat (endTime (priv_campaign (con w))) \<Longrightarrow> \<not> op \<Longrightarrow>
     contribute_body s n op ans e p w = (Inl Operator_missing, w)"
  "\<not> isClosed (con w) \<Longrightarrow> n \<le> unat (endTime (priv_campaign (con w))) \<Longrightarrow> op \<Longrightarrow>
     contribute_body s n op Reverted e p w =
       (Inl Ledger_reverted,
        w\<lparr>ledger_calls := ledger_calls w @ [ConfidentialTransferFrom s (this (con w)) e p]\<rparr>)"
  by (simp_all add: contribute_body_def cEth_confidentialTransferFrom_def Let_def)

lemma contribute_not_accepted:
  assumes "\<not> accepts w n op ans"
  shows "\<exists>err. fst (contribute s n op ans e p w) = Inl err" "snd (contribute s n op ans e p w) = w"
proof -
  have "\<exists>err w'. contribute_body s n op ans e p w = (Inl err, w')"
    using assms
    by (cases "isClosed (con w)"; cases "n \<le> unat (endTime (priv_campaign (con w)))"; cases op)
       (auto simp: accepts_def contribute_refused)
  then show "\<exists>err. fst (contribute s n op ans e p w) = Inl err" "snd (contribute s n op ans e p w) = w"
    by (auto simp: contribute_def transact_def)
qed

lemma books_configure:
  assumes "books w L"
  shows "books (snd (configureCampaign s n nm tg et w)) L"
  using assms by (simp add: configureCampaign_result books_def)

lemma books_close:
  assumes b: "books w L"
  shows "books (snd (closeCampaign s n ans w)) L"
proof -
  let ?f = "enc w"
  let ?z = "Trivial_handle 0"
  let ?f' = "FHE_allow (snd (fhe_mint ?f ?z 0)) ?z (this (con w))"
  have wf: "fhe_wf ?f" using b by (simp add: books_def)
  have m: "fhe_mint ?f ?z 0 = (?z, snd (fhe_mint ?f ?z 0))" by (simp add: fhe_mint_def)
  have hz: "?z \<noteq> 0" and hv: "0 = denotes ?z" by simp_all
  note ms = fhe_mint_spec [OF wf hz hv m]
  have wf': "fhe_wf ?f'" using ms(6) by (simp add: FHE_allow_wf)
  have keep: "\<And>k. ciphertexts ?f k \<noteq> None \<Longrightarrow> ciphertexts ?f' k = ciphertexts ?f k"
    using ms(3) by simp
  have "books (w\<lparr>con := (con w)\<lparr>isClosed := True\<rparr>, enc := ?f', ledger_calls := lc, events := ev\<rparr>) L"
    for lc ev
    using b wf' holds_mono [OF _ keep] ms(5) by (auto simp: books_def)
  moreover have "books (w\<lparr>con := (con w)\<lparr>isClosed := True\<rparr>, ledger_calls := lc, events := ev\<rparr>) L"
    for lc ev
    using b by (simp add: books_def)
  ultimately show ?thesis using b
    by (simp add: closeCampaign_result split: reply.splits)
qed


lemma contribute_accepted:
  assumes ok: "storage_ok w" and acc: "accepts w n op (Returned a)"
  shows "\<exists>h t f'.
     contribute s n op (Returned a) e p w =
       (Inr h,
        \<lparr>con = (con w)\<lparr>priv_contributions := (priv_contributions (con w))(s := h),
                       priv_totalRaised := t, lastContributionAt := n\<rparr>,
         enc = f',
         events = events w @
           [ContributionReceived s (Transfer_handle s (this (con w)) e p a) n],
         ledger_calls = ledger_calls w @ [ConfidentialTransferFrom s (this (con w)) e p]\<rparr>) \<and>
     h \<noteq> 0 \<and> t \<noteq> 0 \<and>
     ciphertexts f' h = Some (clear_of (enc w) (priv_contributions (con w) s) + a) \<and>
     ciphertexts f' t = Some (clear_of (enc w) (priv_totalRaised (con w)) + a) \<and>
     (\<forall>k. ciphertexts (enc w) k \<noteq> None \<longrightarrow> ciphertexts f' k = ciphertexts (enc w) k) \<and>
     acl f' = acl (enc w) \<union>
        {(h, this (con w)), (h, s), (h, fundraiser (con w)),
         (t, this (con w)), (t, fundraiser (con w)), (t, s)} \<and>
     fhe_wf f'"
proof -
  have o: "\<not> isClosed (con w)" "n \<le> unat (endTime (priv_campaign (con w)))" "op = True"
    using acc by (simp_all add: accepts_def)
  from contribute_body_ok [OF ok o(1,2), of s a e p]
  show ?thesis unfolding contribute_def transact_def o(3) by fastforce
qed

lemma amounts_of_snoc:
  "amounts_of c (L @ [(s, a)]) = (if c = s then amounts_of c L @ [a] else amounts_of c L)"
  by (simp add: amounts_of_def)

lemma books_contribute:
  assumes b: "books w L" and acc: "accepts w n op (Returned a)"
  shows "books (snd (contribute s n op (Returned a) e p w)) (L @ [(s, a)])"
proof -
  let ?f = "enc w"
  let ?C = "priv_contributions (con w)"
  let ?T = "priv_totalRaised (con w)"
  have wf: "fhe_wf ?f" using b by (simp add: books_def)
  obtain h t f' where
    res: "contribute s n op (Returned a) e p w =
       (Inr h,
        \<lparr>con = (con w)\<lparr>priv_contributions := ?C(s := h),
                       priv_totalRaised := t, lastContributionAt := n\<rparr>,
         enc = f',
         events = events w @
           [ContributionReceived s (Transfer_handle s (this (con w)) e p a) n],
         ledger_calls = ledger_calls w @ [ConfidentialTransferFrom s (this (con w)) e p]\<rparr>)"
    and nz: "h \<noteq> 0" "t \<noteq> 0"
    and ch: "ciphertexts f' h = Some (clear_of ?f (?C s) + a)"
    and ct: "ciphertexts f' t = Some (clear_of ?f ?T + a)"
    and keep: "\<forall>k. ciphertexts ?f k \<noteq> None \<longrightarrow> ciphertexts f' k = ciphertexts ?f k"
    and acl': "acl f' = acl ?f \<union>
        {(h, this (con w)), (h, s), (h, fundraiser (con w)),
         (t, this (con w)), (t, fundraiser (con w)), (t, s)}"
    and wf': "fhe_wf f'"
    using contribute_accepted [OF books_storage_ok [OF b] acc, of s e p] by blast
  have keep': "\<And>k. ciphertexts ?f k \<noteq> None \<Longrightarrow> ciphertexts f' k = ciphertexts ?f k"
    using keep by blast
  have hC: "holds ?f (?C c) (amounts_of c L)" for c using b by (simp add: books_def)
  have hT: "holds ?f ?T (map snd L)" using b by (simp add: books_def)
  have "holds f' ((?C(s := h)) c) (amounts_of c (L @ [(s, a)]))" for c
  proof (cases "c = s")
    case True
    then show ?thesis using nz ch holds_clear [OF wf hC [of s]]
      by (simp add: amounts_of_snoc holds_def)
  next
    case False
    then show ?thesis using holds_mono [OF hC [of c] keep'] by (simp add: amounts_of_snoc)
  qed
  moreover have "holds f' t (map snd (L @ [(s, a)]))"
    using nz ct holds_clear [OF wf hT] by (simp add: holds_def)
  moreover have "amounts_of c (L @ [(s, a)]) \<noteq> [] \<longrightarrow>
          ((?C(s := h)) c, c) \<in> acl f' \<and> ((?C(s := h)) c, fundraiser (con w)) \<in> acl f'" for c
    using b by (auto simp: amounts_of_snoc acl' books_def)
  moreover have "(t, fundraiser (con w)) \<in> acl f'" by (simp add: acl')
  ultimately show ?thesis using wf' by (simp add: res books_def)
qed

lemma books_step:
  assumes b: "books w L"
  shows "books (step w c) (L @ moved w c)"
proof (cases c)
  case (ConfigureCampaign s n nm tg et)
  then show ?thesis using books_configure [OF b] by (simp add: step_def)
next
  case (CloseCampaign s n ans)
  then show ?thesis using books_close [OF b] by (simp add: step_def)
next
  case (Contribute s n op ans e p)
  show ?thesis
  proof (cases "accepts w n op ans")
    case False
    from contribute_not_accepted [OF False, of s e p]
    have "step w c = w" "\<not> succeeds w c"
      by (auto simp: step_def succeeds_def Contribute split: prod.splits)
    moreover have "moved w c = []"
      using \<open>\<not> succeeds w c\<close> by (cases ans) (simp_all add: Contribute)
    ultimately show ?thesis using b by simp
  next
    case True
    then obtain a where ans: "ans = Returned a" by (cases ans) (simp_all add: accepts_def)
    from contribute_accepted [OF books_storage_ok [OF b] True [unfolded ans], of s e p]
    have "succeeds w c" by (auto simp: succeeds_def Contribute ans)
    then have "moved w c = [(s, a)]" by (simp add: Contribute ans)
    moreover have "step w c = snd (contribute s n op (Returned a) e p w)"
      by (simp add: step_def Contribute ans split: prod.splits)
    ultimately show ?thesis using books_contribute [OF b True [unfolded ans], of s e p] by simp
  qed
qed

lemma books_run: "books w L \<Longrightarrow> books (run w cs) (L @ accepted w cs)"
proof (induction cs arbitrary: w L)
  case Nil
  then show ?case by simp
next
  case (Cons c cs)
  from Cons.IH [OF books_step [OF Cons.prems, of c]] show ?case by simp
qed

lemma constructor_result:
  "constructor sender self n f token nm tg et =
     (if token = 0 then Inl Token_required
      else if nm = [] then Inl Name_required
      else if tg = 0 then Inl Target_required
      else if unat et \<le> n then Inl End_time_must_be_in_future
      else Inr \<lparr>con = (fresh_storage token sender self)
                        \<lparr>priv_campaign := \<lparr>name = nm, targetAmount = tg, endTime = et\<rparr>\<rparr>,
                enc = f, events = [CampaignUpdated nm tg et], ledger_calls = []\<rparr>)"
  by (simp add: constructor_def setCampaign_def fresh_storage_def word_greater_zero_iff not_less)

lemma books_constructor:
  assumes "fhe_wf f" and "constructor sender self n f token nm tg et = Inr w"
  shows "books w []"
  using assms
  by (auto simp: constructor_result books_def holds_def amounts_of_def fresh_storage_def
      split: if_splits)

subsection \<open>The concrete deployment\<close>

lemma fhe0_wf: "fhe_wf fhe0"
  by (simp add: fhe_wf_def fhe0_def)

lemma world0_constructed:
  "constructor deployer campaign_address 1000 fhe0 token_address ''Relief Pool'' 5000000 4600 = Inr world0"
  by (simp add: constructor_result world0_def fresh_storage_def token_address_def)

lemmas model_defs = contribute_def contribute_body_def transact_def cEth_confidentialTransferFrom_def
  FHE_add_def FHE_asEuint64_def FHE_isInitialized_def FHE_allow_def fhe_mint_def Let_def
  step_def succeeds_def


lemma sum_list_unat:
  fixes xs :: "uint64 list"
  shows "sum_list (map unat xs) < 2 ^ 64 \<Longrightarrow> unat (sum_list xs) = sum_list (map unat xs)"
proof (induction xs)
  case Nil
  then show ?case by simp
next
  case (Cons x xs)
  then have "sum_list (map unat xs) < 2 ^ 64" by simp
  with Cons have "unat (sum_list xs) = sum_list (map unat xs)" by simp
  moreover have "unat x + sum_list (map unat xs) < 2 ^ 64" using Cons.prems by simp
  ultimately show ?case by (simp add: unat_word_ariths)
qed

lemma reachable_books:
  assumes "fhe_wf f" and "constructor sender self n f tok nm tg et = Inr w0"
  shows "books (run w0 cs) (accepted w0 cs)"
  using books_run [OF books_constructor [OF assms], of cs] by simp

lemma run_example_gifts:
  "accepted world0 example_gifts = [(alice, 2500000), (bob, 1000000), (alice, 750000)]"
  "fundraiser (con (run world0 example_gifts)) = deployer"
  by (simp_all add: example_gifts_def world0_def fhe0_def model_defs alice_def bob_def)

subsection \<open>Program order inside a call\<close>

text \<open>
  In program order \<^verbatim>\<open>closeCampaign\<close> writes the flag before it calls the token: where the
  token reverts, the body stops in a state that has the flag set. That state is never
  observed, as the revert undoes the write.
\<close>

lemma closeCampaign_body_writes_flag_first:
  assumes "s = fundraiser (con w)" and "\<not> isClosed (con w)"
  shows "fst (closeCampaign_body s n Reverted w) = Inl Ledger_reverted"
    and "isClosed (con (snd (closeCampaign_body s n Reverted w)))"
  using assms
  by (simp_all add: closeCampaign_body_def Let_def cEth_confidentialTransfer_def
      FHE_asEuint64_def fhe_mint_def split: prod.splits)

text \<open>
  The contract's own checks come before its first write: a body that stops on one of the
  contract's \<^verbatim>\<open>require\<close>s stops in the state it started in. Only a collaborator's
  revert can find the body with writes made, and the revert undoes them.
\<close>

lemma configureCampaign_body_validates_first:
  "fst (configureCampaign_body s n nm tg et w) = Inl e \<Longrightarrow>
   snd (configureCampaign_body s n nm tg et w) = w"
  by (auto simp: configureCampaign_body_def setCampaign_def split: if_splits)

lemma FHE_add_error: "FHE_add f a b = Inl e \<Longrightarrow> e = Fhe_reverted"
  by (auto simp: FHE_add_def Let_def split: prod.splits option.splits if_splits)

lemma contribute_body_validates_first:
  assumes "fst (contribute_body s n op ans x p w) = Inl e"
    and "e \<noteq> Ledger_reverted" and "e \<noteq> Fhe_reverted"
  shows "snd (contribute_body s n op ans x p w) = w"
  using assms
  by (auto simp: contribute_body_def cEth_confidentialTransferFrom_def Let_def
      split: if_splits reply.splits sum.splits prod.splits dest: FHE_add_error)

lemma closeCampaign_body_validates_first:
  assumes "fst (closeCampaign_body s n ans w) = Inl e" and "e \<noteq> Ledger_reverted"
  shows "snd (closeCampaign_body s n ans w) = w"
  using assms
  by (auto simp: closeCampaign_body_def cEth_confidentialTransfer_def Let_def
      split: if_splits reply.splits prod.splits)

lemma perform_failure:
  assumes "fst (perform w c) = Inl e"
  shows "snd (perform w c) = w"
proof (cases c)
  case (ConfigureCampaign s n nm tg et)
  then show ?thesis
    using assms transact_failure [of "configureCampaign_body s n nm tg et" w e]
    by (simp add: configureCampaign_def)
next
  case (Contribute s n op ans x p)
  obtain r w' where r: "contribute s n op ans x p w = (r, w')" by (cases "contribute s n op ans x p w")
  with assms Contribute have "r = Inl e" by (cases r) simp_all
  with r transact_failure [of "contribute_body s n op ans x p" w e]
  show ?thesis by (simp add: Contribute contribute_def)
next
  case (CloseCampaign s n ans)
  then show ?thesis
    using assms transact_failure [of "closeCampaign_body s n ans" w e]
    by (simp add: closeCampaign_def)
qed

subsection \<open>What no call changes, and what a closed campaign refuses\<close>

lemma contribute_body_frame:
  "isClosed (con (snd (contribute_body s n op ans x p w))) = isClosed (con w) \<and>
   fundraiser (con (snd (contribute_body s n op ans x p w))) = fundraiser (con w) \<and>
   cEth (con (snd (contribute_body s n op ans x p w))) = cEth (con w) \<and>
   this (con (snd (contribute_body s n op ans x p w))) = this (con w) \<and>
   priv_campaign (con (snd (contribute_body s n op ans x p w))) = priv_campaign (con w)"
proof (cases "isClosed (con w) \<or> \<not> n \<le> unat (endTime (priv_campaign (con w))) \<or> \<not> op")
  case True
  then show ?thesis by (auto simp: contribute_body_def)
next
  case False
  show ?thesis
  proof (cases ans)
    case Reverted
    with False show ?thesis
      by (simp add: contribute_body_def cEth_confidentialTransferFrom_def Let_def)
  next
    case (Returned a)
    obtain tr f1 where m: "fhe_mint (enc w) (Transfer_handle s (this (con w)) x p a) a = (tr, f1)"
      by (cases "fhe_mint (enc w) (Transfer_handle s (this (con w)) x p a) a")
    show ?thesis
    proof (cases "FHE_add f1 (priv_contributions (con w) s) tr")
      case (Inl e)
      with False Returned m show ?thesis
        by (simp add: contribute_body_def cEth_confidentialTransferFrom_def Let_def)
    next
      case (Inr r)
      obtain h f2 where r: "r = (h, f2)" by (cases r)
      show ?thesis
      proof (cases "FHE_add (FHE_allow (FHE_allow (FHE_allow f2 h (this (con w))) h s) h
                       (fundraiser (con w))) (priv_totalRaised (con w)) tr")
        case (Inl e)
        with False Returned m \<open>FHE_add f1 (priv_contributions (con w) s) tr = Inr r\<close> r
        show ?thesis
          by (simp add: contribute_body_def cEth_confidentialTransferFrom_def Let_def)
      next
        case (Inr r')
        obtain t f6 where r': "r' = (t, f6)" by (cases r')
        with False Returned m \<open>FHE_add f1 (priv_contributions (con w) s) tr = Inr r\<close> r Inr
        show ?thesis
          by (simp add: contribute_body_def cEth_confidentialTransferFrom_def Let_def)
      qed
    qed
  qed
qed

lemma contribute_frame:
  "isClosed (con (snd (contribute s n op ans x p w))) = isClosed (con w)"
  "fundraiser (con (snd (contribute s n op ans x p w))) = fundraiser (con w)"
  "cEth (con (snd (contribute s n op ans x p w))) = cEth (con w)"
  "this (con (snd (contribute s n op ans x p w))) = this (con w)"
  "priv_campaign (con (snd (contribute s n op ans x p w))) = priv_campaign (con w)"
  using contribute_body_frame [of s n op ans x p w]
  by (cases "contribute_body s n op ans x p w"; cases "fst (contribute_body s n op ans x p w)";
      simp add: contribute_def transact_def)+


lemma step_Contribute:
  "step w (Contribute s n op ans x p) = snd (contribute s n op ans x p w)"
  by (simp add: step_def split_beta)

lemma step_frame:
  "fundraiser (con (step w c)) = fundraiser (con w) \<and>
   cEth (con (step w c)) = cEth (con w) \<and>
   this (con (step w c)) = this (con w)"
proof (cases c)
  case (ConfigureCampaign s n nm tg et)
  then show ?thesis by (simp add: step_def configureCampaign_result)
next
  case (Contribute s n op ans x p)
  then show ?thesis by (simp add: step_Contribute contribute_frame)
next
  case (CloseCampaign s n ans)
  then show ?thesis by (cases ans) (simp_all add: step_def closeCampaign_result)
qed

lemma run_frame:
  "fundraiser (con (run w cs)) = fundraiser (con w) \<and> cEth (con (run w cs)) = cEth (con w) \<and>
   this (con (run w cs)) = this (con w)"
  by (induction cs arbitrary: w) (simp_all add: step_frame)

lemma step_closed:
  assumes "isClosed (con w)"
  shows "step w c = w"
proof (cases c)
  case (ConfigureCampaign s n nm tg et)
  with assms show ?thesis by (simp add: step_def configureCampaign_result)
next
  case (Contribute s n op ans x p)
  with assms show ?thesis
    by (simp add: step_Contribute contribute_def transact_def contribute_refused)
next
  case (CloseCampaign s n ans)
  with assms show ?thesis by (simp add: step_def closeCampaign_result)
qed

lemma run_closed: "isClosed (con w) \<Longrightarrow> run w cs = w"
  by (induction cs) (simp_all add: step_closed)

lemma step_closes:
  assumes "\<not> isClosed (con w)" and "isClosed (con (step w c))"
  shows "(\<exists>n. c = CloseCampaign (fundraiser (con w)) n (Returned ())) \<and> succeeds w c"
proof (cases c)
  case (ConfigureCampaign s n nm tg et)
  with assms show ?thesis by (simp add: step_def configureCampaign_result split: if_splits)
next
  case (Contribute s n op ans x p)
  with assms show ?thesis by (simp add: step_Contribute contribute_frame)
next
  case (CloseCampaign s n ans)
  show ?thesis
  proof (cases ans)
    case Reverted
    with assms CloseCampaign show ?thesis
      by (simp add: step_def closeCampaign_result split: if_splits)
  next
    case (Returned u)
    with assms CloseCampaign show ?thesis
      by (simp add: step_def succeeds_def closeCampaign_result split: if_splits)
  qed
qed

lemma world0_storage_ok: "storage_ok world0"
  by (rule books_storage_ok [OF books_constructor [OF fhe0_wf world0_constructed]])

lemma closed_world_facts:
  "isClosed (con closed_world)" "fundraiser (con closed_world) = deployer"
  "priv_campaign (con closed_world) = priv_campaign (con world0)"
  by (simp_all add: closed_world_def closeCampaign_result world0_def)


section \<open>The claims\<close>

text \<open>
  C1, as the code has it. The views \<open>contributionOf\<close> and \<open>totalRaised\<close> return the stored
  handle and mint nothing. In every state reached from a deployment: for an identity
  with no accepted contribution the handle returned is \<^verbatim>\<open>bytes32(0)\<close>, which is not
  initialized and stands for no ciphertext; for an identity with an accepted
  contribution it is initialized and a ciphertext. The same holds of the total, with
  respect to the accepted contributions of everybody.
\<close>

theorem reads_return_the_stored_handle:
  assumes "fhe_wf f" and "constructor sender self n f tok nm tg et = Inr w0"
  shows "(amounts_of c (accepted w0 cs) = [] \<longrightarrow>
            contributionOf (run w0 cs) c = 0 \<and>
            \<not> FHE_isInitialized (contributionOf (run w0 cs) c) \<and>
            ciphertexts (enc (run w0 cs)) (contributionOf (run w0 cs) c) = None) \<and>
         (amounts_of c (accepted w0 cs) \<noteq> [] \<longrightarrow>
            FHE_isInitialized (contributionOf (run w0 cs) c) \<and>
            ciphertexts (enc (run w0 cs)) (contributionOf (run w0 cs) c) \<noteq> None) \<and>
         (accepted w0 cs = [] \<longrightarrow>
            totalRaised (run w0 cs) = 0 \<and>
            \<not> FHE_isInitialized (totalRaised (run w0 cs)) \<and>
            ciphertexts (enc (run w0 cs)) (totalRaised (run w0 cs)) = None) \<and>
         (accepted w0 cs \<noteq> [] \<longrightarrow>
            FHE_isInitialized (totalRaised (run w0 cs)) \<and>
            ciphertexts (enc (run w0 cs)) (totalRaised (run w0 cs)) \<noteq> None)"
proof -
  let ?w = "run w0 cs" and ?L = "accepted w0 cs"
  have b: "books ?w ?L" by (rule reachable_books [OF assms])
  then have wf: "fhe_wf (enc ?w)"
    and hc: "holds (enc ?w) (priv_contributions (con ?w) c) (amounts_of c ?L)"
    and ht: "holds (enc ?w) (priv_totalRaised (con ?w)) (map snd ?L)"
    by (simp_all add: books_def)
  have z: "ciphertexts (enc ?w) 0 = None" using wf by (simp add: fhe_wf_def)
  show ?thesis using hc ht z
    by (auto simp: holds_def contributionOf_def totalRaised_def FHE_isInitialized_def
        split: if_splits)
qed

theorem reads_return_the_stored_handle_witness:
  "fhe_wf fhe0 \<and>
   constructor deployer campaign_address 1000 fhe0 token_address ''Relief Pool'' 5000000 4600 = Inr world0 \<and>
   \<not> FHE_isInitialized (contributionOf (run world0 example_gifts) deployer) \<and>
   FHE_isInitialized (contributionOf (run world0 example_gifts) alice) \<and>
   ciphertexts (enc (run world0 example_gifts)) (contributionOf (run world0 example_gifts) alice) \<noteq> None \<and>
   FHE_isInitialized (totalRaised (run world0 example_gifts))"
  using reads_return_the_stored_handle [OF fhe0_wf world0_constructed, where c = alice and cs = example_gifts]
    reads_return_the_stored_handle [OF fhe0_wf world0_constructed, where c = deployer and cs = example_gifts]
    fhe0_wf world0_constructed
  by (simp add: run_example_gifts amounts_of_def alice_def bob_def deployer_def FHE_isInitialized_def)

text \<open>
  C1, as the spec words it, fails on the fresh deployment of the test suite: both views
  return \<^verbatim>\<open>bytes32(0)\<close>, which \<^verbatim>\<open>FHE.isInitialized\<close> rejects and nobody can decrypt.
  The test "stores campaign configuration and total starts at zero" expects exactly this
  handle, and the frontend tests for it before decrypting.
\<close>

theorem reads_before_any_contribution_are_uninitialized:
  "constructor deployer campaign_address 1000 fhe0 token_address ''Relief Pool'' 5000000 4600 = Inr world0 \<and>
   contributionOf world0 alice = 0 \<and>
   \<not> FHE_isInitialized (contributionOf world0 alice) \<and>
   decrypt (enc world0) (contributionOf world0 alice) alice = Inl Access_denied \<and>
   totalRaised world0 = 0 \<and>
   \<not> FHE_isInitialized (totalRaised world0) \<and>
   decrypt (enc world0) (totalRaised world0) deployer = Inl Access_denied"
  using world0_constructed
  by (simp add: world0_def fhe0_def contributionOf_def totalRaised_def FHE_isInitialized_def
      decrypt_def)

text \<open>
  C2. Starting from a deployed contract, after any history of calls, the contributor who
  decrypts \<open>contributionOf\<close> reads the sum of the amounts of that contributor's accepted
  contributions, and the fundraiser who decrypts \<open>totalRaised\<close> reads the sum of the
  amounts of all accepted contributions, whoever made them. Amounts are \<^verbatim>\<open>uint64\<close> and
  the sums are the ones \<^verbatim>\<open>FHE.add\<close> forms; they are the sums of the natural numbers as
  long as those fit in 64 bits. Nothing is decrypted on the way: the update path only
  calls \<^const>\<open>FHE_add\<close> and \<^const>\<open>FHE_allow\<close>.
\<close>

theorem contributions_decrypt_to_their_sum:
  assumes "fhe_wf f" and "constructor sender self n f tok nm tg et = Inr w0"
  shows "(amounts_of c (accepted w0 cs) \<noteq> [] \<longrightarrow>
            decrypt (enc (run w0 cs)) (contributionOf (run w0 cs) c) c =
              Inr (sum_list (amounts_of c (accepted w0 cs))) \<and>
            (sum_list (map unat (amounts_of c (accepted w0 cs))) < 2 ^ 64 \<longrightarrow>
               unat (sum_list (amounts_of c (accepted w0 cs))) =
               sum_list (map unat (amounts_of c (accepted w0 cs))))) \<and>
         (accepted w0 cs \<noteq> [] \<longrightarrow>
            decrypt (enc (run w0 cs)) (totalRaised (run w0 cs)) (fundraiser (con (run w0 cs))) =
              Inr (sum_list (map snd (accepted w0 cs))) \<and>
            (sum_list (map unat (map snd (accepted w0 cs))) < 2 ^ 64 \<longrightarrow>
               unat (sum_list (map snd (accepted w0 cs))) =
               sum_list (map unat (map snd (accepted w0 cs)))))"
proof -
  let ?w = "run w0 cs" and ?L = "accepted w0 cs"
  have b: "books ?w ?L" by (rule reachable_books [OF assms])
  have "amounts_of c ?L \<noteq> [] \<Longrightarrow>
          decrypt (enc ?w) (contributionOf ?w c) c = Inr (sum_list (amounts_of c ?L))"
    using b by (auto simp: books_def holds_def decrypt_def contributionOf_def split: if_splits)
  moreover have "?L \<noteq> [] \<Longrightarrow>
          decrypt (enc ?w) (totalRaised ?w) (fundraiser (con ?w)) = Inr (sum_list (map snd ?L))"
    using b by (auto simp: books_def holds_def decrypt_def totalRaised_def split: if_splits)
  ultimately show ?thesis using sum_list_unat by blast
qed


theorem contributions_decrypt_to_their_sum_witness:
  "fhe_wf fhe0 \<and>
   constructor deployer campaign_address 1000 fhe0 token_address ''Relief Pool'' 5000000 4600 = Inr world0 \<and>
   decrypt (enc (run world0 example_gifts)) (contributionOf (run world0 example_gifts) alice) alice =
     Inr 3250000 \<and>
   decrypt (enc (run world0 example_gifts)) (totalRaised (run world0 example_gifts)) deployer =
     Inr 4250000"
  using contributions_decrypt_to_their_sum [OF fhe0_wf world0_constructed, of alice example_gifts]
    fhe0_wf world0_constructed
  by (simp add: run_example_gifts amounts_of_def alice_def bob_def)

text \<open>
  C3. Whenever the token's transfer fails, \<open>closeCampaign\<close> fails and leaves the state,
  the closed flag included, as it was; and a call of \<open>closeCampaign\<close> after which the
  flag is newly set is one whose transfer succeeded and which itself succeeded.
\<close>

theorem closed_only_if_transfer_succeeds:
  "(\<exists>e. closeCampaign s n Reverted w = (Inl e, w)) \<and>
   isClosed (con (snd (closeCampaign s n Reverted w))) = isClosed (con w) \<and>
   (\<not> isClosed (con w) \<and> isClosed (con (snd (closeCampaign s n ans w))) \<longrightarrow>
      ans = Returned () \<and> fst (closeCampaign s n ans w) = Inr ())"
  by (cases ans) (auto simp: closeCampaign_result)

theorem closed_only_if_transfer_succeeds_witness:
  "\<not> isClosed (con world0) \<and>
   closeCampaign deployer 3000 Reverted world0 = (Inl Ledger_reverted, world0) \<and>
   \<not> isClosed (con (snd (closeCampaign deployer 3000 Reverted world0))) \<and>
   isClosed (con (snd (closeCampaign deployer 3000 (Returned ()) world0))) \<and>
   fst (closeCampaign deployer 3000 (Returned ()) world0) = Inr ()"
  using closed_only_if_transfer_succeeds [where s = deployer and n = 3000 and w = world0 and ans = "Returned ()"]
  by (simp add: closeCampaign_result world0_def)

text \<open>
  C4. A call of \<open>configureCampaign\<close>, \<open>contribute\<close> or \<open>closeCampaign\<close> that fails, for
  whatever reason, ends in the state it started in: campaign metadata, contributions,
  encrypted total, \<open>lastContributionAt\<close>, the closed flag, the coprocessor, the requests
  to the token and the event log are all components of that state.
\<close>

theorem failed_call_leaves_no_trace:
  "(fst (configureCampaign s n nm tg et w) = Inl e \<longrightarrow>
      snd (configureCampaign s n nm tg et w) = w) \<and>
   (fst (contribute s n op ans x p w) = Inl e \<longrightarrow>
      snd (contribute s n op ans x p w) = w) \<and>
   (fst (closeCampaign s n ans' w) = Inl e \<longrightarrow>
      snd (closeCampaign s n ans' w) = w) \<and>
   (\<not> succeeds w c \<longrightarrow> step w c = w)"
proof -
  have "\<not> succeeds w c \<Longrightarrow> step w c = w"
    using perform_failure [of w c] by (cases "fst (perform w c)") (simp_all add: succeeds_def step_def)
  then show ?thesis
    using transact_failure [of "configureCampaign_body s n nm tg et" w e]
      transact_failure [of "contribute_body s n op ans x p" w e]
      transact_failure [of "closeCampaign_body s n ans'" w e]
    by (simp add: configureCampaign_def contribute_def closeCampaign_def)
qed

theorem failed_call_leaves_no_trace_witness:
  "fst (configureCampaign alice 3000 ''Mine'' 1 9000 after_one_gift) = Inl Only_fundraiser \<and>
   snd (configureCampaign alice 3000 ''Mine'' 1 9000 after_one_gift) = after_one_gift \<and>
   fst (contribute bob 4601 True (Returned 5) 8 [] after_one_gift) = Inl Past_end_time \<and>
   snd (contribute bob 4601 True (Returned 5) 8 [] after_one_gift) = after_one_gift \<and>
   fst (contribute bob 3000 True Reverted 8 [] after_one_gift) = Inl Ledger_reverted \<and>
   snd (contribute bob 3000 True Reverted 8 [] after_one_gift) = after_one_gift \<and>
   fst (closeCampaign deployer 3000 Reverted after_one_gift) = Inl Ledger_reverted \<and>
   snd (closeCampaign deployer 3000 Reverted after_one_gift) = after_one_gift"
proof -
  have f: "fundraiser (con after_one_gift) = deployer" "\<not> isClosed (con after_one_gift)"
    "endTime (priv_campaign (con after_one_gift)) = 4600"
    by (simp_all add: after_one_gift_def world0_def fhe0_def model_defs)
  have a: "fst (configureCampaign alice 3000 ''Mine'' 1 9000 after_one_gift) = Inl Only_fundraiser"
    by (simp add: configureCampaign_result f alice_def deployer_def)
  have b: "fst (contribute bob 4601 True (Returned 5) 8 [] after_one_gift) = Inl Past_end_time"
    by (simp add: contribute_def transact_def contribute_refused f)
  have c: "fst (contribute bob 3000 True Reverted 8 [] after_one_gift) = Inl Ledger_reverted"
    by (simp add: contribute_def transact_def contribute_refused f)
  have d: "fst (closeCampaign deployer 3000 Reverted after_one_gift) = Inl Ledger_reverted"
    by (simp add: closeCampaign_result f)
  show ?thesis
    using a b c d
      failed_call_leaves_no_trace [where w = after_one_gift and e = Only_fundraiser and s = alice
        and n = 3000 and nm = "''Mine''" and tg = 1 and et = 9000]
      failed_call_leaves_no_trace [where w = after_one_gift and e = Past_end_time and s = bob
        and n = 4601 and op = True and ans = "Returned 5" and x = 8 and p = "[]"]
      failed_call_leaves_no_trace [where w = after_one_gift and e = Ledger_reverted and s = bob
        and n = 3000 and op = True and ans = Reverted and x = 8 and p = "[]"]
      failed_call_leaves_no_trace [where w = after_one_gift and e = Ledger_reverted and s = deployer
        and n = 3000 and ans' = Reverted]
    by simp
qed

text \<open>
  C5. \<open>contribute\<close> reverts with "Campaign closed" whenever the campaign is closed;
  otherwise with "Past end time" whenever the block timestamp is after \<open>endTime\<close>;
  otherwise with "Operator missing" whenever the token does not report the contract as
  operator of the caller. In each of the three cases the body stops in the state it
  started in, so the token has not been asked to transfer anything, whatever it would
  have answered. At a timestamp equal to \<open>endTime\<close>, with the campaign open, the operator
  approval in place and the token moving the amount, the contribution is accepted and the
  transfer is the one request made.
\<close>

theorem contribute_checks_in_order:
  "(isClosed (con w) \<longrightarrow>
      contribute_body s n op ans x p w = (Inl Campaign_closed, w) \<and>
      contribute s n op ans x p w = (Inl Campaign_closed, w)) \<and>
   (\<not> isClosed (con w) \<and> unat (endTime (priv_campaign (con w))) < n \<longrightarrow>
      contribute_body s n op ans x p w = (Inl Past_end_time, w) \<and>
      contribute s n op ans x p w = (Inl Past_end_time, w)) \<and>
   (\<not> isClosed (con w) \<and> n \<le> unat (endTime (priv_campaign (con w))) \<and> \<not> op \<longrightarrow>
      contribute_body s n op ans x p w = (Inl Operator_missing, w) \<and>
      contribute s n op ans x p w = (Inl Operator_missing, w)) \<and>
   (storage_ok w \<and> \<not> isClosed (con w) \<and> n = unat (endTime (priv_campaign (con w))) \<and> op \<longrightarrow>
      (\<exists>h. fst (contribute s n op (Returned a) x p w) = Inr h) \<and>
      ledger_calls (snd (contribute s n op (Returned a) x p w)) =
        ledger_calls w @ [ConfidentialTransferFrom s (this (con w)) x p])"
proof -
  have "storage_ok w \<Longrightarrow> \<not> isClosed (con w) \<Longrightarrow> n = unat (endTime (priv_campaign (con w))) \<Longrightarrow> op \<Longrightarrow>
      (\<exists>h. fst (contribute s n op (Returned a) x p w) = Inr h) \<and>
      ledger_calls (snd (contribute s n op (Returned a) x p w)) =
        ledger_calls w @ [ConfidentialTransferFrom s (this (con w)) x p]"
    using contribute_accepted [of w n op a s x p] by (auto simp: accepts_def)
  then show ?thesis
    by (auto simp: contribute_refused contribute_def transact_def)
qed

theorem contribute_checks_in_order_witness:
  "contribute alice 5000 False Reverted 7 [] closed_world = (Inl Campaign_closed, closed_world) \<and>
   contribute alice 4601 False Reverted 7 [] world0 = (Inl Past_end_time, world0) \<and>
   contribute alice 4600 False Reverted 7 [] world0 = (Inl Operator_missing, world0) \<and>
   storage_ok world0 \<and>
   (\<exists>h. fst (contribute alice 4600 True (Returned 5) 7 [] world0) = Inr h) \<and>
   ledger_calls (snd (contribute alice 4600 True (Returned 5) 7 [] world0)) =
     [ConfidentialTransferFrom alice campaign_address 7 []]"
proof -
  have w: "\<not> isClosed (con world0)" "unat (endTime (priv_campaign (con world0))) = 4600"
    "ledger_calls world0 = []" "this (con world0) = campaign_address"
    by (simp_all add: world0_def)
  show ?thesis
    using contribute_checks_in_order [where w = closed_world and s = alice and n = 5000
        and op = False and ans = Reverted and x = 7 and p = "[]"]
      contribute_checks_in_order [where w = world0 and s = alice and n = 4601
        and op = False and ans = Reverted and x = 7 and p = "[]"]
      contribute_checks_in_order [where w = world0 and s = alice and n = 4600
        and op = False and ans = Reverted and x = 7 and p = "[]"]
      contribute_checks_in_order [where w = world0 and s = alice and n = 4600
        and op = True and a = 5 and x = 7 and p = "[]"]
      world0_storage_ok
    by (simp add: closed_world_facts w)
qed

text \<open>
  C6, as the code has it. \<open>configureCampaign\<close> applies five checks in order: it reverts
  with "Only fundraiser" for every caller but the fundraiser; else with "Campaign closed"
  (the reason \<open>contribute\<close> gives, not the "Already closed" of \<open>closeCampaign\<close>) when the
  campaign is closed; else with "Name required" for an empty name; else with
  "Target required" for a target of 0; else with "End time must be in future" unless the
  end time is strictly after the block timestamp. Any input failing a check fails and
  changes nothing. Every other input succeeds, \<open>getCampaign\<close> afterwards returns exactly
  the new name, target and end time with \<open>closed = False\<close>, and one \<open>CampaignUpdated\<close> event
  with these values is appended.
\<close>

theorem configureCampaign_checks_then_overwrites:
  "(s \<noteq> fundraiser (con w) \<longrightarrow>
      configureCampaign s n nm tg et w = (Inl Only_fundraiser, w)) \<and>
   (s = fundraiser (con w) \<and> isClosed (con w) \<longrightarrow>
      configureCampaign s n nm tg et w = (Inl Campaign_closed, w)) \<and>
   (s = fundraiser (con w) \<and> \<not> isClosed (con w) \<and> nm = [] \<longrightarrow>
      configureCampaign s n nm tg et w = (Inl Name_required, w)) \<and>
   (s = fundraiser (con w) \<and> \<not> isClosed (con w) \<and> nm \<noteq> [] \<and> tg \<le> 0 \<longrightarrow>
      configureCampaign s n nm tg et w = (Inl Target_required, w)) \<and>
   (s = fundraiser (con w) \<and> \<not> isClosed (con w) \<and> nm \<noteq> [] \<and> 0 < tg \<and> \<not> n < unat et \<longrightarrow>
      configureCampaign s n nm tg et w = (Inl End_time_must_be_in_future, w)) \<and>
   (s \<noteq> fundraiser (con w) \<or> isClosed (con w) \<or> nm = [] \<or> tg \<le> 0 \<or> \<not> n < unat et \<longrightarrow>
      (\<exists>e. configureCampaign s n nm tg et w = (Inl e, w))) \<and>
   (s = fundraiser (con w) \<and> \<not> isClosed (con w) \<and> nm \<noteq> [] \<and> 0 < tg \<and> n < unat et \<longrightarrow>
      fst (configureCampaign s n nm tg et w) = Inr () \<and>
      getCampaign (snd (configureCampaign s n nm tg et w)) = (nm, tg, et, False) \<and>
      events (snd (configureCampaign s n nm tg et w)) = events w @ [CampaignUpdated nm tg et])"
  by (auto simp: configureCampaign_result getCampaign_def word_greater_zero_iff)

theorem configureCampaign_checks_then_overwrites_witness:
  "configureCampaign alice 3000 ''Seed'' 7 9000 world0 = (Inl Only_fundraiser, world0) \<and>
   configureCampaign deployer 3000 ''Seed'' 7 9000 closed_world = (Inl Campaign_closed, closed_world) \<and>
   configureCampaign deployer 3000 [] 7 9000 world0 = (Inl Name_required, world0) \<and>
   configureCampaign deployer 3000 ''Seed'' 0 9000 world0 = (Inl Target_required, world0) \<and>
   configureCampaign deployer 3000 ''Seed'' 7 3000 world0 = (Inl End_time_must_be_in_future, world0) \<and>
   fst (configureCampaign deployer 3000 ''Seed'' 7 3001 world0) = Inr () \<and>
   getCampaign (snd (configureCampaign deployer 3000 ''Seed'' 7 3001 world0)) =
     (''Seed'', 7, 3001, False) \<and>
   events (snd (configureCampaign deployer 3000 ''Seed'' 7 3001 world0)) =
     [CampaignUpdated ''Relief Pool'' 5000000 4600, CampaignUpdated ''Seed'' 7 3001]"
proof -
  have w: "\<not> isClosed (con world0)" "fundraiser (con world0) = deployer"
    "events world0 = [CampaignUpdated ''Relief Pool'' 5000000 4600]" "alice \<noteq> deployer"
    by (simp_all add: world0_def alice_def deployer_def)
  show ?thesis
    using configureCampaign_checks_then_overwrites [where w = world0 and s = alice and n = 3000
        and nm = "''Seed''" and tg = 7 and et = 9000]
      configureCampaign_checks_then_overwrites [where w = closed_world and s = deployer and n = 3000
        and nm = "''Seed''" and tg = 7 and et = 9000]
      configureCampaign_checks_then_overwrites [where w = world0 and s = deployer and n = 3000
        and nm = "[]" and tg = 7 and et = 9000]
      configureCampaign_checks_then_overwrites [where w = world0 and s = deployer and n = 3000
        and nm = "''Seed''" and tg = 0 and et = 9000]
      configureCampaign_checks_then_overwrites [where w = world0 and s = deployer and n = 3000
        and nm = "''Seed''" and tg = 7 and et = 3000]
      configureCampaign_checks_then_overwrites [where w = world0 and s = deployer and n = 3000
        and nm = "''Seed''" and tg = 7 and et = 3001]
    by (simp add: closed_world_facts w)
qed

text \<open>
  C6, as the spec words it, names the wrong reason for a closed campaign: the fundraiser's
  \<open>configureCampaign\<close> on the closed deployment reverts with "Campaign closed", which is
  not "Already closed".
\<close>

theorem configure_after_close_reports_campaign_closed:
  "isClosed (con closed_world) \<and> fundraiser (con closed_world) = deployer \<and>
   fst (configureCampaign deployer 3000 ''Seed'' 7 9000 closed_world) = Inl Campaign_closed \<and>
   fst (configureCampaign deployer 3000 ''Seed'' 7 9000 closed_world) \<noteq> Inl Already_closed"
  by (simp add: configureCampaign_result closed_world_facts)

text \<open>
  C7, as the code has it. A deployed contract starts open. The step that closes an open
  campaign is a successful \<open>closeCampaign\<close> by the fundraiser whose transfer the token
  accepted, and no other. Once the campaign is closed every call fails and the whole
  state stays as it is, so the flag stays set and the metadata stays fixed through any
  history. On a closed campaign \<open>configureCampaign\<close> reverts with "Campaign closed" and
  \<open>closeCampaign\<close> with "Already closed" when the fundraiser calls, and both revert with
  "Only fundraiser" for anybody else.
\<close>

theorem closed_flag_never_reopens:
  "(constructor sender self n0 f tok nm0 tg0 et0 = Inr w0 \<longrightarrow> \<not> isClosed (con w0)) \<and>
   (\<not> isClosed (con w) \<and> isClosed (con (step w c)) \<longrightarrow>
      (\<exists>n'. c = CloseCampaign (fundraiser (con w)) n' (Returned ())) \<and> succeeds w c) \<and>
   (isClosed (con w) \<longrightarrow>
      run w cs = w \<and> isClosed (con (run w cs)) \<and> getCampaign (run w cs) = getCampaign w) \<and>
   (isClosed (con w) \<longrightarrow>
      configureCampaign s n nm tg et w =
        (Inl (if s = fundraiser (con w) then Campaign_closed else Only_fundraiser), w) \<and>
      closeCampaign s n ans w =
        (Inl (if s = fundraiser (con w) then Already_closed else Only_fundraiser), w))"
proof -
  have "constructor sender self n0 f tok nm0 tg0 et0 = Inr w0 \<Longrightarrow> \<not> isClosed (con w0)"
    by (auto simp: constructor_result fresh_storage_def split: if_splits)
  moreover have "isClosed (con w) \<Longrightarrow>
      run w cs = w \<and> isClosed (con (run w cs)) \<and> getCampaign (run w cs) = getCampaign w"
    by (simp add: run_closed)
  moreover have "isClosed (con w) \<Longrightarrow>
      configureCampaign s n nm tg et w =
        (Inl (if s = fundraiser (con w) then Campaign_closed else Only_fundraiser), w) \<and>
      closeCampaign s n ans w =
        (Inl (if s = fundraiser (con w) then Already_closed else Only_fundraiser), w)"
    by (simp add: configureCampaign_result closeCampaign_result)
  ultimately show ?thesis using step_closes [of w c] by blast
qed

theorem closed_flag_never_reopens_witness:
  "constructor deployer campaign_address 1000 fhe0 token_address ''Relief Pool'' 5000000 4600 = Inr world0 \<and>
   \<not> isClosed (con world0) \<and>
   isClosed (con (step world0 (CloseCampaign deployer 3000 (Returned ())))) \<and>
   succeeds world0 (CloseCampaign deployer 3000 (Returned ())) \<and>
   isClosed (con closed_world) \<and>
   run closed_world after_close_calls = closed_world \<and>
   getCampaign (run closed_world after_close_calls) = (''Relief Pool'', 5000000, 4600, True) \<and>
   configureCampaign deployer 3100 ''Again'' 9 9000 closed_world = (Inl Campaign_closed, closed_world) \<and>
   closeCampaign deployer 3300 Reverted closed_world = (Inl Already_closed, closed_world)"
proof -
  have a: "isClosed (con (step world0 (CloseCampaign deployer 3000 (Returned ()))))"
    "\<not> isClosed (con world0)"
    by (simp_all add: step_def closeCampaign_result world0_def)
  have g: "getCampaign closed_world = (''Relief Pool'', 5000000, 4600, True)"
    by (simp add: getCampaign_def closed_world_facts) (simp add: world0_def)
  show ?thesis
    using a g world0_constructed
      closed_flag_never_reopens [where w = world0 and c = "CloseCampaign deployer 3000 (Returned ())"
        and sender = deployer and self = campaign_address and ?n0.0 = 1000 and f = fhe0
        and tok = token_address and ?nm0.0 = "''Relief Pool''" and ?tg0.0 = 5000000 and ?et0.0 = 4600
        and ?w0.0 = world0]
      closed_flag_never_reopens [where w = closed_world and cs = after_close_calls and s = deployer
        and n = 3100 and nm = "''Again''" and tg = 9 and et = 9000 and ans = Reverted]
      closed_flag_never_reopens [where w = closed_world and s = deployer
        and n = 3300 and ans = Reverted]
    by (simp add: closed_world_facts)
qed

text \<open>
  C7, as the spec words it, has every \<open>configureCampaign\<close> and every second
  \<open>closeCampaign\<close> fail with the one reason "Already closed". On the closed deployment the
  fundraiser's \<open>configureCampaign\<close> reverts with "Campaign closed", and a \<open>closeCampaign\<close>
  by alice with "Only fundraiser".
\<close>

theorem closed_campaign_refusals_differ:
  "isClosed (con closed_world) \<and>
   fst (configureCampaign deployer 3100 ''Again'' 9 9000 closed_world) = Inl Campaign_closed \<and>
   fst (closeCampaign alice 3300 (Returned ()) closed_world) = Inl Only_fundraiser \<and>
   Campaign_closed \<noteq> Already_closed \<and> Only_fundraiser \<noteq> Already_closed"
  by (simp add: configureCampaign_result closeCampaign_result closed_world_facts alice_def deployer_def)





text \<open>
  C10. The constructor reverts with "Token required" for the zero token address. For a
  nonzero token address, a nonempty name, a positive target and an end time after the
  block timestamp it succeeds; the fundraiser is the deployer, the token is the address
  given, the campaign is open, and both addresses are the same after any history of
  calls. No call changes \<open>fundraiser\<close> or \<open>cEth\<close> in any state whatever.
\<close>

theorem constructor_fixes_fundraiser_and_token:
  "(tok = 0 \<longrightarrow> constructor sender self n f tok nm tg et = Inl Token_required) \<and>
   (tok \<noteq> 0 \<and> nm \<noteq> [] \<and> 0 < tg \<and> n < unat et \<longrightarrow>
      (\<exists>w0. constructor sender self n f tok nm tg et = Inr w0 \<and>
            fundraiser (con w0) = sender \<and> cEth (con w0) = tok \<and> \<not> isClosed (con w0) \<and>
            getCampaign w0 = (nm, tg, et, False) \<and>
            fundraiser (con (run w0 cs)) = sender \<and> cEth (con (run w0 cs)) = tok)) \<and>
   fundraiser (con (run w cs)) = fundraiser (con w) \<and>
   cEth (con (run w cs)) = cEth (con w)"
  by (auto simp: constructor_result run_frame fresh_storage_def getCampaign_def
      word_greater_zero_iff)

theorem constructor_fixes_fundraiser_and_token_witness:
  "constructor deployer campaign_address 1000 fhe0 0 ''Relief Pool'' 5000000 4600 = Inl Token_required \<and>
   constructor deployer campaign_address 1000 fhe0 token_address ''Relief Pool'' 5000000 4600 = Inr world0 \<and>
   fundraiser (con world0) = deployer \<and> cEth (con world0) = token_address \<and>
   \<not> isClosed (con world0) \<and>
   fundraiser (con (run world0 example_gifts)) = deployer \<and>
   cEth (con (run world0 example_gifts)) = token_address"
  using constructor_fixes_fundraiser_and_token [where tok = 0 and sender = deployer
      and self = campaign_address and n = 1000 and f = fhe0 and nm = "''Relief Pool''"
      and tg = 5000000 and et = 4600]
    constructor_fixes_fundraiser_and_token [where tok = token_address and sender = deployer
      and self = campaign_address and n = 1000 and f = fhe0 and nm = "''Relief Pool''"
      and tg = 5000000 and et = 4600 and cs = example_gifts and w = world0]
    world0_constructed
  by (simp add: token_address_def)

end
